theory Spec2Isabelle
  imports Complex_Main "HOL-Library.AList" "HOL-Library.Sublist" "HOL-Library.Log_Nat"
begin

section \<open>Geo grid places search: data model\<close>

text \<open>
  The program is a single TypeScript module, \<^verbatim>\<open>main.ts\<close>. Its numbers are IEEE 754
  doubles: a finite number is the rational it denotes, and the two arithmetic operations
  of the program, \<^verbatim>\<open>km / 111\<close> and \<^verbatim>\<open>x += step\<close>, round the exact result to the
  nearest double, ties to even (section \<open>Double arithmetic\<close>). The coordinates of a point
  are finite. Strings are byte lists. Console output and the pacing delay
  \<^verbatim>\<open>sleep(300)\<close> are not modelled.
\<close>

record LatLng =
  lat :: rat
  lng :: rat

record Bounds =
  southwest :: LatLng
  northeast :: LatLng

record Geometry =
  bounds :: "Bounds option"
  viewport :: Bounds

record GeocodeResult =
  geometry :: Geometry

record GeocodeResponse =
  results :: "GeocodeResult list"

record Location =
  latitude :: rat
  longitude :: rat

record DisplayName =
  text' :: string
  languageCode :: string

record Place =
  place_id :: string
  formattedAddress :: "string option"
  location :: "Location option"
  rating :: "rat option"
  websiteUri :: "string option"
  userRatingCount :: "rat option"
  displayName :: "DisplayName option"

record PlacesSearchResponse =
  places :: "Place list option"

text \<open>
  The dedup store \<^verbatim>\<open>Map<string, Place>\<close>: entries in insertion order, as a
  JavaScript \<open>Map\<close> iterates them.
\<close>

type_synonym ResultSet = "(string \<times> Place) list"

text \<open>A JavaScript number: not a number, finite, or one of the two infinities.\<close>

datatype jsnum = NaN | Fin rat | PosInf | NegInf

text \<open>
  What \<^verbatim>\<open>await fetch(...)\<close> followed by \<^verbatim>\<open>await res.json()\<close> gives: the fetch
  rejects, the body is not JSON, or the body parses to a value of the declared interface.
\<close>

datatype 'a fetched = FetchRejected | BodyNotJson | Json 'a

datatype error =
  NoGeocodeResults | NetworkFailure | JsonSyntaxError | TypeError

text \<open>
  The outside world of one run: the two HTTP services, as functions of the request (the
  credential and the fixed radius travel with every request and are left implicit), and
  the two built-in conversions between numbers and strings, which the repository does
  not define.
\<close>

record world =
  geocode_api :: "string \<Rightarrow> GeocodeResponse fetched"
  places_api :: "rat \<Rightarrow> rat \<Rightarrow> string list \<Rightarrow> PlacesSearchResponse fetched"
  toNumber :: "string \<Rightarrow> jsnum"
  numToString :: "rat \<Rightarrow> string"

text \<open>The observable effects of a run, in the order they happen.\<close>

datatype event =
  GeocodeCall string
  | SearchCall rat rat "string list"
  | FileWritten string string

section \<open>Double arithmetic\<close>

text \<open>
  For \<open>y > 0\<close>, \<open>ilog2 y\<close> is the exponent \<open>e\<close> with \<open>2 powi e \<le> y < 2 powi (e + 1)\<close>.
\<close>

definition ilog2 :: "rat \<Rightarrow> int" where
  "ilog2 y = (if 1 \<le> y then bitlen \<lfloor>y\<rfloor> - 1 else - bitlen (\<lceil>1 / y\<rceil> - 1))"

text \<open>The nearest integer, a tie going to the even one.\<close>

definition roundEven :: "rat \<Rightarrow> int" where
  "roundEven n =
     (let f = \<lfloor>n\<rfloor>; d = n - of_int f
      in if d < 1/2 then f else if 1/2 < d then f + 1 else if even f then f else f + 1)"

text \<open>
  Rounding to binary64 with an unbounded exponent upwards: a number of exponent \<open>e\<close> has
  53 significant bits, so it is rounded to a multiple of \<open>2 powi (e - 52)\<close>; below the
  normal range the spacing stays \<open>2 powi (- 1074)\<close>.
\<close>

definition roundFinite :: "rat \<Rightarrow> rat" where
  "roundFinite y =
     (if y = 0 then 0
      else let q = 2 powi (max (ilog2 \<bar>y\<bar>) (- 1022) - 52)
           in of_int (roundEven (y / q)) * q)"

text \<open>The double that an exact result becomes; from \<open>2 powi 1024\<close> on it is infinite.\<close>

definition toDouble :: "rat \<Rightarrow> jsnum" where
  "toDouble y =
     (let r = roundFinite y
      in if 2 powi 1024 \<le> r then PosInf else if r \<le> - (2 powi 1024) then NegInf else Fin r)"

text \<open>\<^verbatim>\<open>x + y\<close> on finite doubles.\<close>

definition jsAdd :: "rat \<Rightarrow> rat \<Rightarrow> jsnum" where
  "jsAdd x y = toDouble (x + y)"

section \<open>Constants and helpers\<close>

definition STEP_KM :: rat where
  "STEP_KM = 3"

definition SEARCH_RADIUS :: rat where
  "SEARCH_RADIUS = 3000"

text \<open>
  \<^verbatim>\<open>km / 111\<close>: the quotient rounded to a double. It is smaller in magnitude than
  \<open>km\<close>, so it is finite.
\<close>

definition kmToDeg :: "rat \<Rightarrow> rat" where
  "kmToDeg km = roundFinite (km / 111)"

section \<open>Grid\<close>

text \<open>
  \<^verbatim>\<open>for (let lng = sw.lng; lng <= ne.lng; lng += step) points.push({ lat, lng })\<close>:
  the inner loop of \<^verbatim>\<open>generateGrid\<close>, with the variables it reads as parameters.
  \<open>None\<close> is a loop that never returns. When \<^verbatim>\<open>lng += step\<close> overflows to
  \<open>Infinity\<close> the condition fails and the loop ends; at \<open>-Infinity\<close> the condition holds
  for ever.
\<close>

partial_function (option) lngLoop ::
  "rat \<Rightarrow> rat \<Rightarrow> rat \<Rightarrow> rat \<Rightarrow> LatLng list \<Rightarrow> LatLng list option" where
  "lngLoop step neLng curLat curLng points =
     (if curLng \<le> neLng
      then (case jsAdd curLng step of
              Fin next \<Rightarrow>
                lngLoop step neLng curLat next (points @ [\<lparr>lat = curLat, lng = curLng\<rparr>])
            | PosInf \<Rightarrow> Some (points @ [\<lparr>lat = curLat, lng = curLng\<rparr>])
            | NaN \<Rightarrow> Some (points @ [\<lparr>lat = curLat, lng = curLng\<rparr>])
            | NegInf \<Rightarrow> None)
      else Some points)"

text \<open>\<^verbatim>\<open>for (let lat = sw.lat; lat <= ne.lat; lat += step) { ... }\<close>: the outer loop.\<close>

partial_function (option) latLoop ::
  "rat \<Rightarrow> LatLng \<Rightarrow> LatLng \<Rightarrow> rat \<Rightarrow> LatLng list \<Rightarrow> LatLng list option" where
  "latLoop step sw ne curLat points =
     (if curLat \<le> lat ne
      then Option.bind (lngLoop step (lng ne) curLat (lng sw) points)
             (\<lambda>points'. case jsAdd curLat step of
                 Fin next \<Rightarrow> latLoop step sw ne next points'
               | PosInf \<Rightarrow> Some points'
               | NaN \<Rightarrow> Some points'
               | NegInf \<Rightarrow> None)
      else Some points)"

definition generateGrid :: "LatLng \<Rightarrow> LatLng \<Rightarrow> LatLng list option" where
  "generateGrid sw ne = latLoop (kmToDeg STEP_KM) sw ne (lat sw) []"

section \<open>Geocode\<close>

definition geocodeCity ::
  "world \<Rightarrow> string \<Rightarrow> event list \<Rightarrow> (error + Bounds) \<times> event list" where
  "geocodeCity w city tr =
     (let tr' = tr @ [GeocodeCall city] in
      case geocode_api w city of
        FetchRejected \<Rightarrow> (Inl NetworkFailure, tr')
      | BodyNotJson \<Rightarrow> (Inl JsonSyntaxError, tr')
      | Json json \<Rightarrow>
          (case results json of
             [] \<Rightarrow> (Inl NoGeocodeResults, tr')
           | r # _ \<Rightarrow>
               (Inr (case bounds (geometry r) of
                       Some b \<Rightarrow> b
                     | None \<Rightarrow> viewport (geometry r)), tr')))"

section \<open>Places\<close>

definition searchNearby ::
  "world \<Rightarrow> rat \<Rightarrow> rat \<Rightarrow> string list \<Rightarrow> event list \<Rightarrow> (error + Place list) \<times> event list" where
  "searchNearby w la lo types tr =
     (let tr' = tr @ [SearchCall la lo types] in
      case places_api w la lo types of
        FetchRejected \<Rightarrow> (Inl NetworkFailure, tr')
      | BodyNotJson \<Rightarrow> (Inl JsonSyntaxError, tr')
      | Json json \<Rightarrow> (Inr (case places json of Some ps \<Rightarrow> ps | None \<Rightarrow> []), tr'))"

section \<open>CSV\<close>

datatype csvval = Str string | Num rat

text \<open>\<^verbatim>\<open>.replace(/"/g, '""')\<close>; the double quote is the byte \<open>0x22\<close>.\<close>

fun replaceQuotes :: "string \<Rightarrow> string" where
  "replaceQuotes [] = []"
| "replaceQuotes (c # cs) =
     (if c = CHR 0x22 then CHR 0x22 # CHR 0x22 # replaceQuotes cs else c # replaceQuotes cs)"

definition escape :: "world \<Rightarrow> csvval option \<Rightarrow> string" where
  "escape w v =
     [CHR 0x22]
     @ replaceQuotes (case v of None \<Rightarrow> [] | Some (Str s) \<Rightarrow> s | Some (Num n) \<Rightarrow> numToString w n)
     @ [CHR 0x22]"

text \<open>\<^verbatim>\<open>Array.prototype.join\<close> on an array of strings.\<close>

fun jsJoin :: "string \<Rightarrow> string list \<Rightarrow> string" where
  "jsJoin sep [] = []"
| "jsJoin sep [x] = x"
| "jsJoin sep (x # y # ys) = x @ sep @ jsJoin sep (y # ys)"

definition header :: "string list" where
  "header = [''id'', ''name'', ''rating'', ''userRatingCount'', ''websiteUri'',
             ''formattedAddress'', ''latitude'', ''longitude'']"

definition toCsv :: "world \<Rightarrow> Place list \<Rightarrow> string" where
  "toCsv w ps =
     (let rows = map (\<lambda>p. jsJoin '',''
            [escape w (Some (Str (place_id p))),
             escape w (map_option (\<lambda>d. Str (text' d)) (displayName p)),
             escape w (map_option Num (rating p)),
             escape w (map_option Num (userRatingCount p)),
             escape w (map_option Str (websiteUri p)),
             escape w (map_option Str (formattedAddress p)),
             escape w (map_option (\<lambda>l. Num (latitude l)) (location p)),
             escape w (map_option (\<lambda>l. Num (longitude l)) (location p))]) ps
      in jsJoin [CHR 0x0A] (jsJoin '','' header # rows))"

section \<open>Main\<close>

text \<open>
  \<^verbatim>\<open>for (const place of places) unique.set(place.id, place)\<close>. \<open>Map.set\<close> on a
  present key replaces the value where the entry stands, on a new key appends the entry:
  this is \<^const>\<open>AList.update\<close>.
\<close>

fun mergePlaces :: "ResultSet \<Rightarrow> Place list \<Rightarrow> ResultSet" where
  "mergePlaces unique [] = unique"
| "mergePlaces unique (place # rest) =
     mergePlaces (AList.update (place_id place) place unique) rest"

text \<open>\<^verbatim>\<open>for (const p of grid) { ... }\<close>: a rejected search leaves the loop at once.\<close>

fun searchLoop ::
  "world \<Rightarrow> string list \<Rightarrow> LatLng list \<Rightarrow> ResultSet \<Rightarrow> event list
     \<Rightarrow> (error + ResultSet) \<times> event list" where
  "searchLoop w types [] unique tr = (Inr unique, tr)"
| "searchLoop w types (p # grid) unique tr =
     (case searchNearby w (lat p) (lng p) types tr of
        (Inl e, tr') \<Rightarrow> (Inl e, tr')
      | (Inr ps, tr') \<Rightarrow> searchLoop w types grid (mergePlaces unique ps) tr')"

text \<open>JavaScript truthiness of a number, and \<^verbatim>\<open>n > 0\<close>.\<close>

fun truthy :: "jsnum \<Rightarrow> bool" where
  "truthy NaN = False"
| "truthy (Fin r) = (r \<noteq> 0)"
| "truthy PosInf = True"
| "truthy NegInf = True"

fun gtZero :: "jsnum \<Rightarrow> bool" where
  "gtZero NaN = False"
| "gtZero (Fin r) = (0 < r)"
| "gtZero PosInf = True"
| "gtZero NegInf = False"

text \<open>
  \<^verbatim>\<open>xs.slice(0, n)\<close>: the end is truncated towards zero, a negative end counts from
  the end of the array, and the result is clamped to the array.
\<close>

fun slice0 :: "'a list \<Rightarrow> jsnum \<Rightarrow> 'a list" where
  "slice0 xs NaN = []"
| "slice0 xs NegInf = []"
| "slice0 xs PosInf = xs"
| "slice0 xs (Fin r) =
     (let k = (if 0 \<le> r then \<lfloor>r\<rfloor> else \<lceil>r\<rceil>)
      in if k < 0 then take (nat (int (length xs) + k)) xs else take (nat k) xs)"

text \<open>
  \<^verbatim>\<open>const grid = testLimit && testLimit > 0 ? fullGrid.slice(0, testLimit) : fullGrid\<close>;
  \<open>None\<close> is \<^verbatim>\<open>undefined\<close>, no \<^verbatim>\<open>--test=\<close> option given.
\<close>

definition testGrid :: "jsnum option \<Rightarrow> 'a list \<Rightarrow> 'a list" where
  "testGrid testLimit fullGrid =
     (case testLimit of
        None \<Rightarrow> fullGrid
      | Some n \<Rightarrow> if truthy n \<and> gtZero n then slice0 fullGrid n else fullGrid)"

definition isSpace :: "char \<Rightarrow> bool" where
  "isSpace c = (c \<in> {CHR 0x09, CHR 0x0A, CHR 0x0B, CHR 0x0C, CHR 0x0D, CHR 0x20})"

text \<open>\<^verbatim>\<open>.replace(/\s+/g, "_")\<close>, on the ASCII white space.\<close>

function replaceSpaces :: "string \<Rightarrow> string" where
  "replaceSpaces [] = []"
| "replaceSpaces (c # cs) =
     (if isSpace c then CHR ''_'' # replaceSpaces (dropWhile isSpace cs)
      else c # replaceSpaces cs)"
  by pat_completeness auto
termination
  by (relation "measure length") (auto simp: length_dropWhile_le less_Suc_eq_le)

definition fileName :: "string \<Rightarrow> string" where
  "fileName city = ''places_'' @ replaceSpaces city @ ''.csv''"

text \<open>
  \<^verbatim>\<open>run(city, types, testLimit)\<close>. The result is \<open>None\<close> when the run never returns,
  otherwise the resolution of its promise (\<open>Inl\<close> is a rejection) and the effects so far.
\<close>

definition run ::
  "world \<Rightarrow> string \<Rightarrow> string list \<Rightarrow> jsnum option \<Rightarrow> ((error + unit) \<times> event list) option" where
  "run w city types testLimit =
     (case geocodeCity w city [] of
        (Inl e, tr) \<Rightarrow> Some (Inl e, tr)
      | (Inr b, tr) \<Rightarrow>
          (case generateGrid (southwest b) (northeast b) of
             None \<Rightarrow> None
           | Some fullGrid \<Rightarrow>
               (case searchLoop w types (testGrid testLimit fullGrid) [] tr of
                  (Inl e, tr') \<Rightarrow> Some (Inl e, tr')
                | (Inr unique, tr') \<Rightarrow>
                    Some (Inr (), tr' @ [FileWritten (fileName city) (toCsv w (map snd unique))]))))"

section \<open>CLI\<close>

text \<open>\<^verbatim>\<open>s.split(c)\<close> for a one-character separator, and \<^verbatim>\<open>s.split(c)[1]\<close>.\<close>

fun splitOn :: "char \<Rightarrow> string \<Rightarrow> string list" where
  "splitOn c [] = [[]]"
| "splitOn c (x # xs) =
     (if x = c then [] # splitOn c xs
      else (case splitOn c xs of [] \<Rightarrow> [[x]] | y # ys \<Rightarrow> (x # y) # ys))"

definition secondPart :: "string \<Rightarrow> string option" where
  "secondPart arg = (case splitOn CHR ''='' arg of _ # v # _ \<Rightarrow> Some v | _ \<Rightarrow> None)"

definition startsWith :: "string \<Rightarrow> string \<Rightarrow> bool" where
  "startsWith s pre = (take (length pre) s = pre)"

definition trim :: "string \<Rightarrow> string" where
  "trim s = rev (dropWhile isSpace (rev (dropWhile isSpace s)))"

text \<open>
  The module's option loop over \<^verbatim>\<open>rawArgs\<close>; the state is
  \<open>(testLimit, types, cityParts)\<close>.
\<close>

fun parseArgs ::
  "world \<Rightarrow> string list \<Rightarrow> jsnum option \<times> string list \<times> string list
     \<Rightarrow> error + jsnum option \<times> string list \<times> string list" where
  "parseArgs w [] st = Inr st"
| "parseArgs w (arg # rest) (testLimit, types, cityParts) =
     (if startsWith arg ''--test='' then
        parseArgs w rest
          (Some (case secondPart arg of Some v \<Rightarrow> toNumber w v | None \<Rightarrow> NaN), types, cityParts)
      else if startsWith arg ''--types='' then
        (case secondPart arg of
           None \<Rightarrow> Inl TypeError
         | Some v \<Rightarrow>
             parseArgs w rest
               (testLimit, filter (\<lambda>t. t \<noteq> []) (map trim (splitOn CHR '','' v)), cityParts))
      else parseArgs w rest (testLimit, types, cityParts @ [arg]))"

text \<open>
  The module body, top to bottom: \<open>env\<close> is \<^verbatim>\<open>process.env.GOOGLE_API_KEY\<close>,
  \<open>rawArgs\<close> is \<^verbatim>\<open>process.argv.slice(2)\<close>. The result is the exit code of the
  process and its effects; an exception that nothing catches ends the process with code 1,
  as \<^verbatim>\<open>process.exit(1)\<close> does, and a run that resolves ends it with code 0.
\<close>

definition main :: "world \<Rightarrow> string option \<Rightarrow> string list \<Rightarrow> (nat \<times> event list) option" where
  "main w env rawArgs =
     (if env = None \<or> env = Some [] then Some (1, [])
      else
        (case parseArgs w rawArgs (None, [''restaurant'', ''cafe''], []) of
           Inl e \<Rightarrow> Some (1, [])
         | Inr (testLimit, types, cityParts) \<Rightarrow>
             (let city = jsJoin '' '' cityParts in
              if city = [] then Some (1, [])
              else
                (case run w city types testLimit of
                   None \<Rightarrow> None
                 | Some (Inl e, tr) \<Rightarrow> Some (1, tr)
                 | Some (Inr u, tr) \<Rightarrow> Some (0, tr)))))"

section \<open>Notions used to state the properties\<close>

text \<open>
  One increment \<^verbatim>\<open>x += step\<close> that stays finite, the first \<open>n\<close> values that a loop
  variable started at \<open>x\<close> takes, and the row-major raster of given latitudes and
  longitudes.
\<close>

definition tick :: "rat \<Rightarrow> rat \<Rightarrow> rat" where
  "tick step x = roundFinite (x + step)"

fun ticks :: "rat \<Rightarrow> rat \<Rightarrow> nat \<Rightarrow> rat list" where
  "ticks step x 0 = []"
| "ticks step x (Suc n) = x # ticks step (tick step x) n"

definition raster :: "rat list \<Rightarrow> rat list \<Rightarrow> LatLng list" where
  "raster lats lngs = concat (map (\<lambda>la. map (\<lambda>lo. \<lparr>lat = la, lng = lo\<rparr>) lngs) lats)"

text \<open>The loop variable started at \<open>x\<close> passes the condition \<open>x \<le> hi\<close> exactly \<open>n\<close> times.\<close>

fun runs :: "rat \<Rightarrow> rat \<Rightarrow> rat \<Rightarrow> nat \<Rightarrow> bool" where
  "runs step hi x 0 = (hi < x)"
| "runs step hi x (Suc n) = (x \<le> hi \<and> runs step hi (tick step x) n)"

text \<open>
  The search request sent for a grid point, the points of the search requests of a trace,
  in order, and the records that the search service answers for a grid point (none when
  the call fails or the body has no \<^verbatim>\<open>places\<close>).
\<close>

definition searchCallOf :: "string list \<Rightarrow> LatLng \<Rightarrow> event" where
  "searchCallOf types p = SearchCall (lat p) (lng p) types"

fun searchedPoints :: "event list \<Rightarrow> LatLng list" where
  "searchedPoints [] = []"
| "searchedPoints (SearchCall la lo types # tr) = \<lparr>lat = la, lng = lo\<rparr> # searchedPoints tr"
| "searchedPoints (GeocodeCall city # tr) = searchedPoints tr"
| "searchedPoints (FileWritten name content # tr) = searchedPoints tr"

definition recordsAt :: "world \<Rightarrow> string list \<Rightarrow> LatLng \<Rightarrow> Place list" where
  "recordsAt w types p =
     (case places_api w (lat p) (lng p) types of
        Json json \<Rightarrow> (case places json of Some ps \<Rightarrow> ps | None \<Rightarrow> [])
      | FetchRejected \<Rightarrow> []
      | BodyNotJson \<Rightarrow> [])"

text \<open>
  The export format in the words of the specification: a field is written between double
  quotes with every double quote in it doubled, an absent field as two double quotes, the
  eight columns of a record in the order of the header, separated by commas.
\<close>

definition specQuoted :: "string \<Rightarrow> string" where
  "specQuoted s =
     CHR 0x22 # concat (map (\<lambda>c. if c = CHR 0x22 then [CHR 0x22, CHR 0x22] else [c]) s)
       @ [CHR 0x22]"

definition specField :: "string option \<Rightarrow> string" where
  "specField v = (case v of None \<Rightarrow> [CHR 0x22, CHR 0x22] | Some s \<Rightarrow> specQuoted s)"

definition specColumns :: "world \<Rightarrow> Place \<Rightarrow> string option list" where
  "specColumns w p =
     [Some (place_id p),
      map_option text' (displayName p),
      map_option (numToString w) (rating p),
      map_option (numToString w) (userRatingCount p),
      websiteUri p,
      formattedAddress p,
      map_option (\<lambda>l. numToString w (latitude l)) (location p),
      map_option (\<lambda>l. numToString w (longitude l)) (location p)]"

fun specCommaSeparated :: "string list \<Rightarrow> string" where
  "specCommaSeparated [] = []"
| "specCommaSeparated (x # xs) = x @ concat (map (\<lambda>y. CHR '','' # y) xs)"

definition specRow :: "world \<Rightarrow> Place \<Rightarrow> string" where
  "specRow w p = specCommaSeparated (map specField (specColumns w p))"

definition specCsv :: "world \<Rightarrow> Place list \<Rightarrow> string" where
  "specCsv w ps =
     ''id,name,rating,userRatingCount,websiteUri,formattedAddress,latitude,longitude''
     @ concat (map (\<lambda>p. CHR 0x0A # specRow w p) ps)"

text \<open>
  An argument that is an option of the command line, and not a part of the place name.
\<close>

definition isOption :: "string \<Rightarrow> bool" where
  "isOption arg = (startsWith arg ''--test='' \<or> startsWith arg ''--types='')"

text \<open>
  Sample inputs: the double that \<^verbatim>\<open>3 / 111\<close> is, a record with identifier \<open>A\<close> and a
  given rating, and two worlds whose geocoder answers a box one row high and three grid
  points wide. In the first world the three points answer a record \<open>A\<close> rated 4, a record
  \<open>A\<close> rated 5 and a body without \<^verbatim>\<open>places\<close>; in the second the fetch for the second
  point is rejected.
\<close>

definition stepDeg :: rat where
  "stepDeg = 486875635391405 / 18014398509481984"

definition placeA :: "rat \<Rightarrow> Place" where
  "placeA r =
     \<lparr>place_id = ''A'', formattedAddress = None, location = None, rating = Some r,
      websiteUri = None, userRatingCount = None, displayName = None\<rparr>"

definition sampleBox :: GeocodeResponse where
  "sampleBox =
     \<lparr>results = [\<lparr>geometry = \<lparr>bounds = None,
        viewport = \<lparr>southwest = \<lparr>lat = 0, lng = 0\<rparr>, northeast = \<lparr>lat = 0, lng = 1/16\<rparr>\<rparr>\<rparr>\<rparr>]\<rparr>"

definition sampleWorld :: world where
  "sampleWorld =
     \<lparr>geocode_api = (\<lambda>city. Json sampleBox),
      places_api = (\<lambda>la lo types.
         if lo = 0 then Json \<lparr>places = Some [placeA 4]\<rparr>
         else if lo = stepDeg then Json \<lparr>places = Some [placeA 5]\<rparr>
         else Json \<lparr>places = None\<rparr>),
      toNumber = (\<lambda>s. NaN),
      numToString = (\<lambda>r. if r = 4 then ''4'' else if r = 5 then ''5'' else ''0'')\<rparr>"

definition failingWorld :: world where
  "failingWorld =
     \<lparr>geocode_api = (\<lambda>city. Json sampleBox),
      places_api = (\<lambda>la lo types.
         if lo = 0 then Json \<lparr>places = Some [placeA 4]\<rparr>
         else if lo = stepDeg then FetchRejected
         else Json \<lparr>places = None\<rparr>),
      toNumber = (\<lambda>s. NaN),
      numToString = (\<lambda>r. if r = 4 then ''4'' else if r = 5 then ''5'' else ''0'')\<rparr>"

definition samplePoints :: "LatLng list" where
  "samplePoints =
     [\<lparr>lat = 0, lng = 0\<rparr>, \<lparr>lat = 0, lng = stepDeg\<rparr>, \<lparr>lat = 0, lng = 2 * stepDeg\<rparr>]"

section \<open>Rounding to a double\<close>

lemma ilog2_lower_big:
  assumes "1 \<le> y"
  shows "2 powi (ilog2 y) \<le> y"
proof -
  from assms have pos: "0 < \<lfloor>y\<rfloor>" by simp
  then have bl: "1 \<le> bitlen \<lfloor>y\<rfloor>" by (simp add: bitlen_alt_def)
  have "(2::int) ^ nat (bitlen \<lfloor>y\<rfloor> - 1) \<le> \<lfloor>y\<rfloor>"
    using bitlen_bounds [OF pos] by simp
  then have "(of_int ((2::int) ^ nat (bitlen \<lfloor>y\<rfloor> - 1)) :: rat) \<le> of_int \<lfloor>y\<rfloor>"
    by (simp only: of_int_le_iff)
  also have "\<dots> \<le> y" by simp
  finally have "(2::rat) ^ nat (bitlen \<lfloor>y\<rfloor> - 1) \<le> y" by simp
  moreover have "ilog2 y = bitlen \<lfloor>y\<rfloor> - 1" using assms by (simp add: ilog2_def)
  moreover have "(2::rat) powi (bitlen \<lfloor>y\<rfloor> - 1) = 2 ^ nat (bitlen \<lfloor>y\<rfloor> - 1)"
    using bl by (simp add: power_int_def)
  ultimately show ?thesis by simp
qed

lemma ilog2_upper_big:
  assumes "1 \<le> y"
  shows "y < 2 powi (ilog2 y + 1)"
proof -
  from assms have pos: "0 < \<lfloor>y\<rfloor>" by simp
  then have bl: "1 \<le> bitlen \<lfloor>y\<rfloor>" by (simp add: bitlen_alt_def)
  have "\<lfloor>y\<rfloor> < 2 ^ nat (bitlen \<lfloor>y\<rfloor>)"
    using bitlen_bounds [OF pos] by simp
  then have "y < of_int (2 ^ nat (bitlen \<lfloor>y\<rfloor>))" by (simp only: floor_less_iff)
  then have "y < (2::rat) ^ nat (bitlen \<lfloor>y\<rfloor>)" by simp
  moreover have "ilog2 y + 1 = bitlen \<lfloor>y\<rfloor>" using assms by (simp add: ilog2_def)
  moreover have "(2::rat) powi (bitlen \<lfloor>y\<rfloor>) = 2 ^ nat (bitlen \<lfloor>y\<rfloor>)"
    using bl by (simp add: power_int_def)
  ultimately show ?thesis by simp
qed

lemma ilog2_small:
  assumes "0 < y" "y < 1"
  shows "2 powi (ilog2 y) \<le> y" and "y < 2 powi (ilog2 y + 1)"
proof -
  define m where "m = \<lceil>1 / y\<rceil> - 1"
  define k where "k = bitlen m"
  have "1 < 1 / y" using assms by simp
  then have "1 < \<lceil>1 / y\<rceil>" by (simp add: less_ceiling_iff)
  then have m: "0 < m" by (simp add: m_def)
  then have k: "1 \<le> k" by (simp add: k_def bitlen_alt_def)
  have e: "ilog2 y = - k" using assms by (simp add: ilog2_def m_def k_def)
  have p1: "(2::rat) powi (- k) = 1 / 2 ^ nat k"
    using k by (simp add: power_int_def inverse_eq_divide power_one_over)
  have p2: "(2::rat) powi (- k + 1) = 1 / 2 ^ nat (k - 1)"
  proof (cases "k = 1")
    case True
    then show ?thesis by simp
  next
    case False
    with k have "- k + 1 < 0" by simp
    then have "(2::rat) powi (- k + 1) = inverse 2 ^ nat (- (- k + 1))"
      by (simp add: power_int_def)
    also have "nat (- (- k + 1)) = nat (k - 1)" by simp
    finally show ?thesis by (simp add: inverse_eq_divide power_one_over)
  qed
  have "m < 2 ^ nat k" using bitlen_bounds [OF m] by (simp add: k_def)
  then have "\<lceil>1 / y\<rceil> \<le> 2 ^ nat k" by (simp add: m_def)
  then have "1 / y \<le> of_int (2 ^ nat k)" by (simp only: ceiling_le_iff)
  then have "1 / y \<le> 2 ^ nat k" by simp
  then have "1 \<le> 2 ^ nat k * y" using assms by (simp add: field_simps)
  then have "1 / 2 ^ nat k \<le> y" by (simp add: field_simps)
  then show "2 powi (ilog2 y) \<le> y" by (simp only: e p1)
  have "2 ^ nat (k - 1) \<le> m" using bitlen_bounds [OF m] by (simp add: k_def)
  then have "2 ^ nat (k - 1) < \<lceil>1 / y\<rceil>" by (simp add: m_def)
  then have "of_int (2 ^ nat (k - 1)) < 1 / y" by (simp only: less_ceiling_iff)
  then have "2 ^ nat (k - 1) < 1 / y" by simp
  then have "2 ^ nat (k - 1) * y < 1" using assms by (simp add: field_simps)
  then have "y < 1 / 2 ^ nat (k - 1)" by (simp add: field_simps)
  then show "y < 2 powi (ilog2 y + 1)" by (simp only: e p2)
qed

lemma ilog2_bounds:
  assumes "0 < y"
  shows "2 powi (ilog2 y) \<le> y" and "y < 2 powi (ilog2 y + 1)"
  using assms ilog2_lower_big [of y] ilog2_upper_big [of y] ilog2_small [of y]
  by (cases "1 \<le> y"; simp)+

lemma roundEven_error: "\<bar>of_int (roundEven n) - n\<bar> \<le> 1/2"
proof -
  have "of_int \<lfloor>n\<rfloor> \<le> n" "n < of_int \<lfloor>n\<rfloor> + 1" by linarith+
  then show ?thesis by (auto simp: roundEven_def Let_def abs_le_iff)
qed

lemma pow2_half: "(2::rat) powi (k - 52) / 2 = 2 powi (k - 53)"
proof -
  have "(2::rat) powi (k - 52) = 2 powi ((k - 53) + 1)" by simp
  also have "\<dots> = 2 powi (k - 53) * 2" by (rule power_int_add_1) simp
  finally show ?thesis by simp
qed

lemma roundFinite_error:
  assumes "- 1022 \<le> k" and "\<bar>y\<bar> \<le> 2 powi k"
  shows "\<bar>roundFinite y - y\<bar> \<le> 2 powi (k - 53)"
proof (cases "y = 0")
  case True
  then show ?thesis by (simp add: roundFinite_def)
next
  case False
  define e where "e = ilog2 \<bar>y\<bar>"
  define q :: rat where "q = 2 powi (max e (- 1022) - 52)"
  have "2 powi e \<le> \<bar>y\<bar>" unfolding e_def using False by (intro ilog2_bounds) simp
  with assms(2) have "(2::rat) powi e \<le> 2 powi k" by simp
  then have "e \<le> k"
    using power_int_strict_increasing [of k e "2::rat"] by (cases "e \<le> k") auto
  with assms(1) have "max e (- 1022) - 52 \<le> k - 52" by simp
  then have qle: "q \<le> 2 powi (k - 52)"
    unfolding q_def by (intro power_int_increasing) simp_all
  have qpos: "0 < q" by (simp add: q_def)
  have r: "roundFinite y = of_int (roundEven (y / q)) * q"
    using False by (simp add: roundFinite_def Let_def q_def e_def)
  have "roundFinite y - y = (of_int (roundEven (y / q)) - y / q) * q"
    using qpos by (simp add: r field_simps)
  then have "\<bar>roundFinite y - y\<bar> = \<bar>of_int (roundEven (y / q)) - y / q\<bar> * q"
    using qpos by (simp add: abs_mult)
  also have "\<dots> \<le> 1/2 * q"
    using roundEven_error [of "y / q"] qpos by (intro mult_right_mono) simp_all
  also have "\<dots> \<le> 2 powi (k - 52) / 2" using qle by simp
  also have "\<dots> = 2 powi (k - 53)" by (rule pow2_half)
  finally show ?thesis .
qed

lemma toDouble_finite:
  assumes "- 1022 \<le> k" and "k \<le> 1022" and "\<bar>y\<bar> \<le> 2 powi k"
  shows "toDouble y = Fin (roundFinite y)"
proof -
  have "\<bar>roundFinite y - y\<bar> \<le> 2 powi (k - 53)"
    using assms(1,3) by (rule roundFinite_error)
  moreover have "(2::rat) powi (k - 53) \<le> 2 powi k"
    by (intro power_int_increasing) simp_all
  ultimately have "\<bar>roundFinite y\<bar> \<le> 2 powi k + 2 powi k"
    using assms(3) by linarith
  also have "\<dots> = 2 powi (k + 1)" by (simp add: power_int_add_1)
  also have "\<dots> < 2 powi 1024"
    using assms(2) by (intro power_int_strict_increasing) simp_all
  finally have "\<bar>roundFinite y\<bar> < 2 powi 1024" .
  then show ?thesis
    unfolding toDouble_def Let_def by (auto simp only: abs_less_iff not_le split: if_splits)
qed

section \<open>The grid generator\<close>

lemma tick_facts:
  assumes "- 1000 \<le> b" "b \<le> 1000" "2 powi (b - 51) \<le> step" "step \<le> 2 powi b"
    and "\<bar>x\<bar> \<le> 2 powi b"
  shows "jsAdd x step = Fin (tick step x)"
    and "x + 2 powi (b - 52) \<le> tick step x"
    and "tick step x \<le> x + step + 2 powi (b - 52)"
proof -
  have pos: "(0::rat) < 2 powi (b - 51)" by simp
  have two: "(2::rat) powi (b - 51) = 2 powi (b - 52) + 2 powi (b - 52)"
  proof -
    have "(2::rat) powi (b - 51) = 2 powi ((b - 52) + 1)" by simp
    also have "\<dots> = 2 powi (b - 52) * 2" by (rule power_int_add_1) simp
    finally show ?thesis by simp
  qed
  have "\<bar>x + step\<bar> \<le> 2 powi b + 2 powi b"
    using assms(3-5) pos by linarith
  also have "\<dots> = 2 powi (b + 1)" by (simp add: power_int_add_1)
  finally have bound: "\<bar>x + step\<bar> \<le> 2 powi (b + 1)" .
  show "jsAdd x step = Fin (tick step x)"
    unfolding jsAdd_def tick_def using assms(1,2) bound
    by (intro toDouble_finite [where k = "b + 1"]) simp_all
  have "\<bar>roundFinite (x + step) - (x + step)\<bar> \<le> 2 powi ((b + 1) - 53)"
    using assms(1) bound by (intro roundFinite_error) simp_all
  then have err: "\<bar>tick step x - (x + step)\<bar> \<le> 2 powi (b - 52)"
    by (simp add: tick_def)
  show "x + 2 powi (b - 52) \<le> tick step x"
    using err assms(3) two by linarith
  show "tick step x \<le> x + step + 2 powi (b - 52)"
    using err by linarith
qed



lemma lngLoop_runs:
  assumes "- 1000 \<le> b" "b \<le> 1000" "2 powi (b - 51) \<le> step" "step \<le> 2 powi b"
    and "\<bar>hi\<bar> \<le> 2 powi b"
  shows "runs step hi x n \<Longrightarrow> - (2 powi b) \<le> x \<Longrightarrow>
    lngLoop step hi la x pts = Some (pts @ map (\<lambda>lo. \<lparr>lat = la, lng = lo\<rparr>) (ticks step x n))"
proof (induction n arbitrary: x pts)
  case 0
  then show ?case by (subst lngLoop.simps) simp
next
  case (Suc n)
  then have le: "x \<le> hi" and r: "runs step hi (tick step x) n" by simp_all
  with Suc.prems assms(5) have ax: "\<bar>x\<bar> \<le> 2 powi b" by linarith
  have add: "jsAdd x step = Fin (tick step x)"
    and adv: "x + 2 powi (b - 52) \<le> tick step x"
    using assms(1-4) ax by (rule tick_facts)+
  have d: "(0::rat) < 2 powi (b - 52)" by simp
  have "- (2 powi b) \<le> tick step x" using adv d Suc.prems by linarith
  from Suc.IH [OF r this]
  have "lngLoop step hi la (tick step x) (pts @ [\<lparr>lat = la, lng = x\<rparr>]) =
      Some ((pts @ [\<lparr>lat = la, lng = x\<rparr>])
        @ map (\<lambda>lo. \<lparr>lat = la, lng = lo\<rparr>) (ticks step (tick step x) n))" .
  then show ?case using le add by (subst lngLoop.simps) simp
qed

lemma raster_Cons:
  "raster (la # lats) lngs = map (\<lambda>lo. \<lparr>lat = la, lng = lo\<rparr>) lngs @ raster lats lngs"
  by (simp add: raster_def)

lemma latLoop_runs:
  assumes "- 1000 \<le> b" "b \<le> 1000" "2 powi (b - 51) \<le> step" "step \<le> 2 powi b"
    and "\<bar>lat ne\<bar> \<le> 2 powi b"
    and inner: "\<And>la pts. lngLoop step (lng ne) la (lng sw) pts =
       Some (pts @ map (\<lambda>lo. \<lparr>lat = la, lng = lo\<rparr>) lngs)"
  shows "runs step (lat ne) x n \<Longrightarrow> - (2 powi b) \<le> x \<Longrightarrow>
    latLoop step sw ne x pts = Some (pts @ raster (ticks step x n) lngs)"
proof (induction n arbitrary: x pts)
  case 0
  then show ?case by (subst latLoop.simps) (simp add: raster_def)
next
  case (Suc n)
  then have le: "x \<le> lat ne" and r: "runs step (lat ne) (tick step x) n" by simp_all
  with Suc.prems assms(5) have ax: "\<bar>x\<bar> \<le> 2 powi b" by linarith
  have add: "jsAdd x step = Fin (tick step x)"
    and adv: "x + 2 powi (b - 52) \<le> tick step x"
    using assms(1-4) ax by (rule tick_facts)+
  have d: "(0::rat) < 2 powi (b - 52)" by simp
  have "- (2 powi b) \<le> tick step x" using adv d Suc.prems by linarith
  from Suc.IH [OF r this]
  have "latLoop step sw ne (tick step x) (pts @ map (\<lambda>lo. \<lparr>lat = x, lng = lo\<rparr>) lngs) =
      Some ((pts @ map (\<lambda>lo. \<lparr>lat = x, lng = lo\<rparr>) lngs)
        @ raster (ticks step (tick step x) n) lngs)" .
  then show ?case using le add by (subst latLoop.simps) (simp add: inner raster_Cons)
qed



lemma step_value: "kmToDeg STEP_KM = stepDeg"
  unfolding kmToDeg_def STEP_KM_def stepDeg_def by code_simp

lemma stepDeg_distinct [simp]:
  "stepDeg \<noteq> 0" "0 \<noteq> stepDeg" "2 * stepDeg \<noteq> 0" "2 * stepDeg \<noteq> stepDeg"
  by (simp_all add: stepDeg_def)



lemma raster_last:
  "lats \<noteq> [] \<Longrightarrow> lngs \<noteq> [] \<Longrightarrow>
   last (raster lats lngs) = \<lparr>lat = last lats, lng = last lngs\<rparr>"
proof (induction lats rule: rev_induct)
  case Nil
  then show ?case by simp
next
  case (snoc la lats)
  then show ?case by (simp add: raster_def last_map)
qed


lemma step_range: "2 powi (8 - 51) \<le> stepDeg" "stepDeg \<le> 2 powi 8"
  by (simp_all add: stepDeg_def)

lemma generateGrid_runs:
  assumes "\<bar>lat ne\<bar> \<le> 2 powi 8" and "\<bar>lng ne\<bar> \<le> 2 powi 8"
    and "- (2 powi 8) \<le> lat sw" and "- (2 powi 8) \<le> lng sw"
    and "runs stepDeg (lat ne) (lat sw) n" and "runs stepDeg (lng ne) (lng sw) m"
  shows "generateGrid sw ne = Some (raster (ticks stepDeg (lat sw) n) (ticks stepDeg (lng sw) m))"
proof -
  have range: "- 1000 \<le> (8::int)" "(8::int) \<le> 1000"
    "2 powi (8 - 51) \<le> stepDeg" "stepDeg \<le> 2 powi 8"
    using step_range by simp_all
  have inner: "\<And>la pts. lngLoop stepDeg (lng ne) la (lng sw) pts =
       Some (pts @ map (\<lambda>lo. \<lparr>lat = la, lng = lo\<rparr>) (ticks stepDeg (lng sw) m))"
    using lngLoop_runs [OF range assms(2,6,4)] .
  show ?thesis
    using latLoop_runs [OF range assms(1) inner assms(5,3), of "[]"]
    by (simp add: generateGrid_def step_value)
qed




text \<open>
  From latitude 18 to 19 the generator makes 37 rows, the last one at
  \<open>18.97297297297301\<close>: the rounded additions drift above the exact multiples of the step.
\<close>

lemma length_ticks: "length (ticks step x n) = n"
  by (induction n arbitrary: x) simp_all

lemma generateGrid_18_19:
  "generateGrid \<lparr>lat = 18, lng = 72\<rparr> \<lparr>lat = 19, lng = 72\<rparr>
     = Some (raster (ticks stepDeg 18 37) [72])"
  "length (raster (ticks stepDeg 18 37) [72]) = 37"
  "lat (last (raster (ticks stepDeg 18 37) [72])) = 1335104281424871 / 70368744177664"
proof -
  have r1: "runs stepDeg 19 18 37" and r2: "runs stepDeg 72 72 1"
    unfolding stepDeg_def by code_simp+
  have t: "ticks stepDeg 72 1 = [72]" by (simp add: numeral_eq_Suc)
  show "generateGrid \<lparr>lat = 18, lng = 72\<rparr> \<lparr>lat = 19, lng = 72\<rparr>
     = Some (raster (ticks stepDeg 18 37) [72])"
    using generateGrid_runs [of "\<lparr>lat = 19, lng = 72\<rparr>" "\<lparr>lat = 18, lng = 72\<rparr>" 37 1] r1 r2
    by (simp add: t)
  have l: "last (ticks stepDeg 18 37) = 1335104281424871 / 70368744177664"
    unfolding stepDeg_def by code_simp
  show "length (raster (ticks stepDeg 18 37) [72]) = 37"
    by (simp add: raster_def length_concat comp_def sum_list_triv length_ticks)
  have "length (ticks stepDeg 18 37) = 37" by (rule length_ticks)
  then have "ticks stepDeg 18 37 \<noteq> []" by auto
  then show "lat (last (raster (ticks stepDeg 18 37) [72])) = 1335104281424871 / 70368744177664"
    by (simp add: raster_last l)
qed

section \<open>The search call\<close>

text \<open>
  Claim C9. When the parsed body of the search response has no \<^verbatim>\<open>places\<close> field,
  \<open>searchNearby\<close> returns the empty list and does not fail; merging it leaves the result
  set as it was, and the loop goes on to the next grid point.
\<close>

theorem searchNearby_without_places:
  assumes "places_api w (lat p) (lng p) types = Json json" and "places json = None"
  shows "searchNearby w (lat p) (lng p) types tr = (Inr [], tr @ [SearchCall (lat p) (lng p) types])
       \<and> mergePlaces unique [] = unique
       \<and> searchLoop w types (p # grid) unique tr
           = searchLoop w types grid unique (tr @ [SearchCall (lat p) (lng p) types])"
  using assms by (simp add: searchNearby_def)

theorem searchNearby_without_places_witness:
  "places_api sampleWorld (lat \<lparr>lat = 0, lng = 2 * stepDeg\<rparr>) (lng \<lparr>lat = 0, lng = 2 * stepDeg\<rparr>) [''cafe'']
     = Json \<lparr>places = None\<rparr>
   \<and> places \<lparr>places = None\<rparr> = None
   \<and> searchNearby sampleWorld 0 (2 * stepDeg) [''cafe''] [] = (Inr [], [SearchCall 0 (2 * stepDeg) [''cafe'']])"
  using searchNearby_without_places
    [of sampleWorld "\<lparr>lat = 0, lng = 2 * stepDeg\<rparr>" "[''cafe'']" "\<lparr>places = None\<rparr>" "[]"]
  by (simp add: sampleWorld_def)

section \<open>Merging and the search loop\<close>

lemma mergePlaces_append:
  "mergePlaces u (a @ b) = mergePlaces (mergePlaces u a) b"
  by (induction a arbitrary: u) simp_all

lemma mergePlaces_keys:
  "fst ` set (mergePlaces u ps) = fst ` set u \<union> place_id ` set ps"
  by (induction ps arbitrary: u) (auto simp: dom_update)

lemma mergePlaces_distinct:
  "distinct (map fst u) \<Longrightarrow> distinct (map fst (mergePlaces u ps))"
  by (induction ps arbitrary: u) (simp_all add: distinct_update)

lemma mergePlaces_other:
  "k \<notin> place_id ` set ps \<Longrightarrow> map_of (mergePlaces u ps) k = map_of u k"
  by (induction ps arbitrary: u) (simp_all add: update_conv')

lemma mergePlaces_last_wins:
  "place_id r \<notin> place_id ` set b \<Longrightarrow> map_of (mergePlaces u (a @ r # b)) (place_id r) = Some r"
  by (simp add: mergePlaces_append mergePlaces_other update_conv')

lemma update_keyed:
  "map (f \<circ> snd) u = map fst u \<Longrightarrow> f v = k \<Longrightarrow>
   map (f \<circ> snd) (AList.update k v u) = map fst (AList.update k v u)"
  by (induction u) auto

lemma mergePlaces_keyed:
  "map (place_id \<circ> snd) u = map fst u \<Longrightarrow>
   map (place_id \<circ> snd) (mergePlaces u ps) = map fst (mergePlaces u ps)"
proof (induction ps arbitrary: u)
  case Nil
  then show ?case by simp
next
  case (Cons r ps)
  have "map (place_id \<circ> snd) (AList.update (place_id r) r u)
      = map fst (AList.update (place_id r) r u)"
    using Cons.prems by (rule update_keyed) simp
  from Cons.IH [OF this] show ?case by simp
qed

lemma recordsAt_searchNearby:
  "searchNearby w (lat p) (lng p) types tr = (Inr ps, tr') \<Longrightarrow> ps = recordsAt w types p"
  by (auto simp: searchNearby_def recordsAt_def Let_def split: fetched.splits option.splits)

lemma searchLoop_result:
  "searchLoop w types grid u tr = (Inr u', tr') \<Longrightarrow>
   u' = mergePlaces u (concat (map (recordsAt w types) grid))"
proof (induction grid arbitrary: u tr)
  case Nil
  then show ?case by simp
next
  case (Cons p grid)
  obtain res tr1 where s: "searchNearby w (lat p) (lng p) types tr = (res, tr1)"
    by (cases "searchNearby w (lat p) (lng p) types tr")
  show ?case
  proof (cases res)
    case (Inl e)
    with Cons.prems s show ?thesis by simp
  next
    case (Inr ps)
    with s have ps: "ps = recordsAt w types p" by (simp add: recordsAt_searchNearby)
    from Cons.prems s Inr have "searchLoop w types grid (mergePlaces u ps) tr1 = (Inr u', tr')"
      by simp
    then have "u' = mergePlaces (mergePlaces u ps) (concat (map (recordsAt w types) grid))"
      by (rule Cons.IH)
    then show ?thesis by (simp add: ps mergePlaces_append)
  qed
qed

lemma concat_nth_split:
  "i < length xss \<Longrightarrow> concat xss = concat (take i xss) @ xss ! i @ concat (drop (Suc i) xss)"
  by (metis append_take_drop_id concat.simps(2) concat_append Cons_nth_drop_Suc)

lemma update_commute:
  "k \<noteq> k' \<Longrightarrow> k \<in> fst ` set al \<Longrightarrow>
   AList.update k v (AList.update k' v' al) = AList.update k' v' (AList.update k v al)"
  by (induction al) auto

lemma mergePlaces_snoc:
  "mergePlaces u (ps @ [r]) = AList.update (place_id r) r (mergePlaces u ps)"
  by (simp add: mergePlaces_append)

lemma update_absorbed:
  "place_id ` set qs \<subseteq> fst ` set x \<Longrightarrow>
   AList.update (place_id r) r (mergePlaces (AList.update (place_id r) r x) qs)
     = AList.update (place_id r) r (mergePlaces x qs)"
proof (induction qs arbitrary: x)
  case Nil
  then show ?case by simp
next
  case (Cons s qs)
  show ?case
  proof (cases "place_id s = place_id r")
    case True
    then show ?thesis by simp
  next
    case False
    have "AList.update (place_id s) s (AList.update (place_id r) r x)
        = AList.update (place_id r) r (AList.update (place_id s) s x)"
      using False Cons.prems by (intro update_commute) auto
    moreover have "place_id ` set qs \<subseteq> fst ` set (AList.update (place_id s) s x)"
      using Cons.prems by (auto simp: dom_update)
    ultimately show ?thesis using Cons.IH by simp
  qed
qed

text \<open>
  Claim C2. When the search loop, started on the empty result set, has gone through the
  grid points in grid order, the result set has exactly one record per identifier seen in
  the responses: its keys are distinct, every entry is keyed by the identifier of its
  record, and the keys are the identifiers of the records of all responses. For an
  identifier that no later grid point returns, the record kept is the one (the last one,
  should the response repeat the identifier) from the response of that last grid point.
\<close>

theorem merge_last_grid_point_wins:
  assumes "searchLoop w types grid [] tr = (Inr unique, tr')"
  shows "distinct (map fst unique)
       \<and> map (place_id \<circ> snd) unique = map fst unique
       \<and> fst ` set unique = place_id ` (\<Union>p\<in>set grid. set (recordsAt w types p))
       \<and> (\<forall>i<length grid. \<forall>r\<in>set (recordsAt w types (grid ! i)).
            (\<forall>j. i < j \<and> j < length grid \<longrightarrow>
                 place_id r \<notin> place_id ` set (recordsAt w types (grid ! j)))
            \<longrightarrow> (\<exists>a r' b. recordsAt w types (grid ! i) = a @ r' # b
                   \<and> place_id r' = place_id r \<and> place_id r \<notin> place_id ` set b
                   \<and> map_of unique (place_id r) = Some r'))"
proof -
  let ?bs = "map (recordsAt w types) grid"
  have u: "unique = mergePlaces [] (concat ?bs)"
    using assms by (rule searchLoop_result)
  have d: "distinct (map fst unique)"
    by (simp add: u mergePlaces_distinct)
  have k: "map (place_id \<circ> snd) unique = map fst unique"
    by (simp add: u mergePlaces_keyed)
  have s: "fst ` set unique = place_id ` (\<Union>p\<in>set grid. set (recordsAt w types p))"
    by (simp add: u mergePlaces_keys)
  have l: "\<exists>a r' b. recordsAt w types (grid ! i) = a @ r' # b
             \<and> place_id r' = place_id r \<and> place_id r \<notin> place_id ` set b
             \<and> map_of unique (place_id r) = Some r'"
    if i: "i < length grid" and r: "r \<in> set (recordsAt w types (grid ! i))"
      and later: "\<forall>j. i < j \<and> j < length grid \<longrightarrow>
                 place_id r \<notin> place_id ` set (recordsAt w types (grid ! j))"
    for i r
  proof -
    from r have "\<exists>x\<in>set (recordsAt w types (grid ! i)). place_id x = place_id r" by blast
    then obtain a r' b where ab: "recordsAt w types (grid ! i) = a @ r' # b"
      and r': "place_id r' = place_id r" and b: "\<forall>x\<in>set b. place_id x \<noteq> place_id r"
      by (auto dest!: split_list_last_prop)
    have rest: "place_id r \<notin> place_id ` set (concat (drop (Suc i) ?bs))"
    proof
      assume "place_id r \<in> place_id ` set (concat (drop (Suc i) ?bs))"
      then obtain ys where ys: "ys \<in> set (drop (Suc i) ?bs)" and in_ys: "place_id r \<in> place_id ` set ys"
        by auto
      from ys obtain n where n: "n < length (drop (Suc i) ?bs)" "ys = drop (Suc i) ?bs ! n"
        by (auto simp: in_set_conv_nth)
      then have "ys = recordsAt w types (grid ! (Suc i + n))" "Suc i + n < length grid"
        by simp_all
      with later in_ys show False by auto
    qed
    have "concat ?bs = concat (take i ?bs) @ ?bs ! i @ concat (drop (Suc i) ?bs)"
      using i by (simp add: concat_nth_split)
    also have "\<dots> = (concat (take i ?bs) @ a) @ r' # (b @ concat (drop (Suc i) ?bs))"
      using i ab by simp
    finally have c: "concat ?bs = (concat (take i ?bs) @ a) @ r' # (b @ concat (drop (Suc i) ?bs))" .
    have "place_id r' \<notin> place_id ` set (b @ concat (drop (Suc i) ?bs))"
      using b rest r' by auto
    then have "map_of unique (place_id r') = Some r'"
      unfolding u c by (rule mergePlaces_last_wins)
    with ab r' b show ?thesis by force
  qed
  from d k s l show ?thesis by blast
qed


theorem merge_last_grid_point_wins_witness:
  "searchLoop sampleWorld [''cafe''] [\<lparr>lat = 0, lng = 0\<rparr>, \<lparr>lat = 0, lng = stepDeg\<rparr>] [] []
     = (Inr [(''A'', placeA 5)], [SearchCall 0 0 [''cafe''], SearchCall 0 stepDeg [''cafe'']])
   \<and> recordsAt sampleWorld [''cafe''] \<lparr>lat = 0, lng = 0\<rparr> = [placeA 4]
   \<and> recordsAt sampleWorld [''cafe''] \<lparr>lat = 0, lng = stepDeg\<rparr> = [placeA 5]
   \<and> distinct (map fst [(''A'', placeA 5)])
   \<and> map_of [(''A'', placeA 5)] (place_id (placeA 5)) = Some (placeA 5)"
proof -
  have run: "searchLoop sampleWorld [''cafe''] [\<lparr>lat = 0, lng = 0\<rparr>, \<lparr>lat = 0, lng = stepDeg\<rparr>] [] []
     = (Inr [(''A'', placeA 5)], [SearchCall 0 0 [''cafe''], SearchCall 0 stepDeg [''cafe'']])"
    by (simp add: searchNearby_def sampleWorld_def placeA_def)
  have r0: "recordsAt sampleWorld [''cafe''] \<lparr>lat = 0, lng = 0\<rparr> = [placeA 4]"
    and r1: "recordsAt sampleWorld [''cafe''] \<lparr>lat = 0, lng = stepDeg\<rparr> = [placeA 5]"
    by (simp_all add: recordsAt_def sampleWorld_def)
  from merge_last_grid_point_wins [OF run]
  have d: "distinct (map fst [(''A'', placeA 5)])"
    and l: "\<forall>i<length [\<lparr>lat = 0, lng = 0\<rparr>, \<lparr>lat = 0, lng = stepDeg\<rparr>].
          \<forall>r\<in>set (recordsAt sampleWorld [''cafe''] ([\<lparr>lat = 0, lng = 0\<rparr>, \<lparr>lat = 0, lng = stepDeg\<rparr>] ! i)).
            (\<forall>j. i < j \<and> j < length [\<lparr>lat = 0, lng = 0\<rparr>, \<lparr>lat = 0, lng = stepDeg\<rparr>] \<longrightarrow>
               place_id r \<notin> place_id ` set (recordsAt sampleWorld [''cafe''] ([\<lparr>lat = 0, lng = 0\<rparr>, \<lparr>lat = 0, lng = stepDeg\<rparr>] ! j)))
            \<longrightarrow> (\<exists>a r' b. recordsAt sampleWorld [''cafe''] ([\<lparr>lat = 0, lng = 0\<rparr>, \<lparr>lat = 0, lng = stepDeg\<rparr>] ! i) = a @ r' # b
                   \<and> place_id r' = place_id r \<and> place_id r \<notin> place_id ` set b
                   \<and> map_of [(''A'', placeA 5)] (place_id r) = Some r')"
    by blast+
  have "\<exists>a r' b. recordsAt sampleWorld [''cafe''] ([\<lparr>lat = 0, lng = 0\<rparr>, \<lparr>lat = 0, lng = stepDeg\<rparr>] ! 1) = a @ r' # b
         \<and> place_id r' = place_id (placeA 5) \<and> place_id (placeA 5) \<notin> place_id ` set b
         \<and> map_of [(''A'', placeA 5)] (place_id (placeA 5)) = Some r'"
    by (rule l [rule_format, of 1 "placeA 5"]) (auto simp: r1)
  then have "map_of [(''A'', placeA 5)] (place_id (placeA 5)) = Some (placeA 5)"
    by (auto simp: r1 Cons_eq_append_conv)
  then show ?thesis using run r0 r1 d by blast
qed

text \<open>
  Claim C7. Merging is idempotent: for every result set and every batch of records,
  merging the batch a second time gives the same result set, entry for entry and in the
  same order, as merging it once.
\<close>

theorem merge_idempotent:
  "mergePlaces (mergePlaces unique batch) batch = mergePlaces unique batch"
proof (induction batch rule: rev_induct)
  case Nil
  then show ?case by simp
next
  case (snoc r qs)
  let ?M = "mergePlaces unique qs"
  have keys: "place_id ` set qs \<subseteq> fst ` set ?M"
    by (simp add: mergePlaces_keys)
  have "mergePlaces (mergePlaces unique (qs @ [r])) (qs @ [r])
      = AList.update (place_id r) r (mergePlaces (AList.update (place_id r) r ?M) qs)"
    by (simp add: mergePlaces_snoc)
  also have "\<dots> = AList.update (place_id r) r (mergePlaces ?M qs)"
    using keys by (rule update_absorbed)
  also have "\<dots> = mergePlaces unique (qs @ [r])"
    by (simp add: snoc.IH mergePlaces_snoc)
  finally show ?case .
qed

section \<open>The effects of a run\<close>

lemma searchedPoints_append:
  "searchedPoints (tr @ tr') = searchedPoints tr @ searchedPoints tr'"
  by (induction tr rule: searchedPoints.induct) simp_all

lemma searchedPoints_calls: "searchedPoints (map (searchCallOf types) g) = g"
  by (induction g) (simp_all add: searchCallOf_def)

lemma geocodeCity_trace:
  "geocodeCity w city tr = (res, tr') \<Longrightarrow> tr' = tr @ [GeocodeCall city]"
  by (auto simp: geocodeCity_def Let_def split: fetched.splits list.splits)

lemma searchNearby_ok:
  "places_api w (lat p) (lng p) types = Json json \<Longrightarrow>
   searchNearby w (lat p) (lng p) types tr = (Inr (recordsAt w types p), tr @ [searchCallOf types p])"
  by (simp add: searchNearby_def recordsAt_def searchCallOf_def)

lemma searchNearby_failed:
  "places_api w (lat p) (lng p) types = FetchRejected \<or>
   places_api w (lat p) (lng p) types = BodyNotJson \<Longrightarrow>
   searchNearby w (lat p) (lng p) types tr =
     (Inl (if places_api w (lat p) (lng p) types = FetchRejected then NetworkFailure
           else JsonSyntaxError), tr @ [searchCallOf types p])"
  by (auto simp: searchNearby_def searchCallOf_def)

lemma searchLoop_all_ok:
  "\<forall>p\<in>set grid. \<exists>json. places_api w (lat p) (lng p) types = Json json \<Longrightarrow>
   searchLoop w types grid u tr =
     (Inr (mergePlaces u (concat (map (recordsAt w types) grid))),
      tr @ map (searchCallOf types) grid)"
proof (induction grid arbitrary: u tr)
  case Nil
  then show ?case by simp
next
  case (Cons p grid)
  then obtain json where "places_api w (lat p) (lng p) types = Json json" by auto
  then have "searchNearby w (lat p) (lng p) types tr
      = (Inr (recordsAt w types p), tr @ [searchCallOf types p])"
    by (rule searchNearby_ok)
  moreover have "\<forall>p\<in>set grid. \<exists>json. places_api w (lat p) (lng p) types = Json json"
    using Cons.prems by simp
  ultimately show ?case
    using Cons.IH by (simp add: mergePlaces_append)
qed

lemma searchLoop_first_failure:
  assumes "\<forall>q\<in>set pre. \<exists>json. places_api w (lat q) (lng q) types = Json json"
    and "places_api w (lat p) (lng p) types = FetchRejected \<or>
         places_api w (lat p) (lng p) types = BodyNotJson"
  shows "searchLoop w types (pre @ p # post) u tr =
     (Inl (if places_api w (lat p) (lng p) types = FetchRejected then NetworkFailure
           else JsonSyntaxError), tr @ map (searchCallOf types) (pre @ [p]))"
  using assms(1)
proof (induction pre arbitrary: u tr)
  case Nil
  show ?case using searchNearby_failed [OF assms(2), of tr] by simp
next
  case (Cons q pre)
  then obtain json where "places_api w (lat q) (lng q) types = Json json" by auto
  then have "searchNearby w (lat q) (lng q) types tr
      = (Inr (recordsAt w types q), tr @ [searchCallOf types q])"
    by (rule searchNearby_ok)
  moreover have "\<forall>q\<in>set pre. \<exists>json. places_api w (lat q) (lng q) types = Json json"
    using Cons.prems by simp
  ultimately show ?case
    using Cons.IH by simp
qed

lemma searchLoop_shape:
  "searchLoop w types grid u tr = (res, tr') \<Longrightarrow>
   \<exists>k\<le>length grid. tr' = tr @ map (searchCallOf types) (take k grid)
      \<and> ((\<exists>u'. res = Inr u') \<longrightarrow> k = length grid)"
proof (induction grid arbitrary: u tr)
  case Nil
  then show ?case by auto
next
  case (Cons p grid)
  obtain r tr1 where s: "searchNearby w (lat p) (lng p) types tr = (r, tr1)"
    by (cases "searchNearby w (lat p) (lng p) types tr")
  then have tr1: "tr1 = tr @ [searchCallOf types p]"
    by (auto simp: searchNearby_def searchCallOf_def Let_def split: fetched.splits)
  show ?case
  proof (cases r)
    case (Inl e)
    with Cons.prems s tr1 have "res = Inl e" "tr' = tr @ map (searchCallOf types) (take 1 (p # grid))"
      by auto
    then show ?thesis by (intro exI [of _ 1]) auto
  next
    case (Inr ps)
    with Cons.prems s have "searchLoop w types grid (mergePlaces u ps) tr1 = (res, tr')"
      by simp
    from Cons.IH [OF this] obtain k where k: "k \<le> length grid"
      "tr' = tr1 @ map (searchCallOf types) (take k grid)"
      "(\<exists>u'. res = Inr u') \<longrightarrow> k = length grid"
      by blast
    then show ?thesis using tr1 by (intro exI [of _ "Suc k"]) auto
  qed
qed

lemma run_shape:
  assumes "geocodeCity w city [] = (Inr b, tr0)"
    and "generateGrid (southwest b) (northeast b) = Some fullGrid"
  shows "\<exists>res tr k. run w city types testLimit = Some (res, tr)
      \<and> k \<le> length (testGrid testLimit fullGrid)
      \<and> searchedPoints tr = take k (testGrid testLimit fullGrid)
      \<and> (res = Inr () \<longrightarrow> searchedPoints tr = testGrid testLimit fullGrid)"
proof -
  let ?G = "testGrid testLimit fullGrid"
  have tr0: "tr0 = [GeocodeCall city]"
    using geocodeCity_trace [OF assms(1)] by simp
  obtain r tr1 where s: "searchLoop w types ?G [] tr0 = (r, tr1)"
    by (cases "searchLoop w types ?G [] tr0")
  from searchLoop_shape [OF this] obtain k where k: "k \<le> length ?G"
    "tr1 = tr0 @ map (searchCallOf types) (take k ?G)"
    "(\<exists>u'. r = Inr u') \<longrightarrow> k = length ?G"
    by blast
  have sp: "searchedPoints tr1 = take k ?G"
    by (simp add: k(2) tr0 searchedPoints_append searchedPoints_calls)
  show ?thesis
  proof (cases r)
    case (Inl e)
    then have "run w city types testLimit = Some (Inl e, tr1)"
      using assms s by (simp add: run_def)
    with k(1) sp show ?thesis by auto
  next
    case (Inr u')
    then have "run w city types testLimit =
       Some (Inr (), tr1 @ [FileWritten (fileName city) (toCsv w (map snd u'))])"
      using assms s by (simp add: run_def)
    moreover have "k = length ?G" using k(3) Inr by simp
    ultimately show ?thesis using sp by (auto simp: searchedPoints_append)
  qed
qed

lemma run_all_ok:
  assumes "geocodeCity w city [] = (Inr b, tr0)"
    and "generateGrid (southwest b) (northeast b) = Some fullGrid"
    and "\<forall>p\<in>set (testGrid testLimit fullGrid). \<exists>json. places_api w (lat p) (lng p) types = Json json"
  shows "run w city types testLimit =
     Some (Inr (), GeocodeCall city # map (searchCallOf types) (testGrid testLimit fullGrid)
       @ [FileWritten (fileName city)
            (toCsv w (map snd (mergePlaces []
               (concat (map (recordsAt w types) (testGrid testLimit fullGrid))))))])"
proof -
  have tr0: "tr0 = [GeocodeCall city]"
    using geocodeCity_trace [OF assms(1)] by simp
  show ?thesis
    using assms(1,2) by (simp add: run_def searchLoop_all_ok [OF assms(3)] tr0)
qed

lemma testGrid_positive: "0 < N \<Longrightarrow> testGrid (Some (Fin (of_nat N))) g = take N g"
  by (simp add: testGrid_def)

lemma testGrid_not_positive:
  "n = NaN \<or> n = NegInf \<or> (\<exists>r. n = Fin r \<and> r \<le> 0) \<Longrightarrow> testGrid (Some n) g = g"
  by (auto simp: testGrid_def)

lemma testGrid_None: "testGrid None g = g"
  by (simp add: testGrid_def)

lemma sample_grid: "generateGrid \<lparr>lat = 0, lng = 0\<rparr> \<lparr>lat = 0, lng = 1/16\<rparr> = Some samplePoints"
proof -
  have r1: "runs stepDeg 0 0 1" and r2: "runs stepDeg (1/16) 0 3"
    unfolding stepDeg_def by code_simp+
  have t1: "ticks stepDeg 0 1 = [0]" by (simp add: numeral_eq_Suc)
  have t2: "ticks stepDeg 0 3 = [0, stepDeg, 2 * stepDeg]"
    unfolding stepDeg_def by code_simp
  have "generateGrid \<lparr>lat = 0, lng = 0\<rparr> \<lparr>lat = 0, lng = 1/16\<rparr>
      = Some (raster (ticks stepDeg 0 1) (ticks stepDeg 0 3))"
    using generateGrid_runs [of "\<lparr>lat = 0, lng = 1/16\<rparr>" "\<lparr>lat = 0, lng = 0\<rparr>" 1 3] r1 r2
    by simp
  then show ?thesis by (simp add: t1 t2 raster_def samplePoints_def)
qed

lemma sample_geocode:
  "geocodeCity sampleWorld city [] =
     (Inr \<lparr>southwest = \<lparr>lat = 0, lng = 0\<rparr>, northeast = \<lparr>lat = 0, lng = 1/16\<rparr>\<rparr>, [GeocodeCall city])"
  "geocodeCity failingWorld city [] =
     (Inr \<lparr>southwest = \<lparr>lat = 0, lng = 0\<rparr>, northeast = \<lparr>lat = 0, lng = 1/16\<rparr>\<rparr>, [GeocodeCall city])"
  by (simp_all add: geocodeCity_def sampleWorld_def failingWorld_def sampleBox_def)

lemma sample_places:
  "places_api sampleWorld la lo types =
     (if lo = 0 then Json \<lparr>places = Some [placeA 4]\<rparr>
      else if lo = stepDeg then Json \<lparr>places = Some [placeA 5]\<rparr>
      else Json \<lparr>places = None\<rparr>)"
  "places_api failingWorld la lo types =
     (if lo = 0 then Json \<lparr>places = Some [placeA 4]\<rparr>
      else if lo = stepDeg then FetchRejected
      else Json \<lparr>places = None\<rparr>)"
  by (simp_all add: sampleWorld_def failingWorld_def)

lemma sample_grid_box:
  "generateGrid (southwest \<lparr>southwest = \<lparr>lat = 0, lng = 0\<rparr>, northeast = \<lparr>lat = 0, lng = 1/16\<rparr>\<rparr>)
     (northeast \<lparr>southwest = \<lparr>lat = 0, lng = 0\<rparr>, northeast = \<lparr>lat = 0, lng = 1/16\<rparr>\<rparr>)
     = Some samplePoints"
  by (simp add: sample_grid)

text \<open>
  Claim C4, as amended. A failed search call is not caught. When the fetch for a grid
  point is rejected or its body is not JSON, while the points before it were answered,
  the run is rejected with that error: its effects are the geocode request and the search
  requests up to and including the failing point, so no later grid point is searched and
  no file is written.
\<close>

theorem search_failure_aborts_run:
  assumes "geocodeCity w city [] = (Inr b, tr0)"
    and "generateGrid (southwest b) (northeast b) = Some fullGrid"
    and "testGrid testLimit fullGrid = pre @ p # post"
    and "\<forall>q\<in>set pre. \<exists>json. places_api w (lat q) (lng q) types = Json json"
    and "places_api w (lat p) (lng p) types = FetchRejected \<or>
         places_api w (lat p) (lng p) types = BodyNotJson"
  shows "run w city types testLimit =
     Some (Inl (if places_api w (lat p) (lng p) types = FetchRejected then NetworkFailure
                else JsonSyntaxError),
           GeocodeCall city # map (searchCallOf types) (pre @ [p]))"
proof -
  have tr0: "tr0 = [GeocodeCall city]"
    using geocodeCity_trace [OF assms(1)] by simp
  show ?thesis
    using assms(1,2) by (simp add: run_def assms(3) searchLoop_first_failure [OF assms(4,5)] tr0)
qed

theorem search_failure_aborts_run_witness:
  "geocodeCity failingWorld ''X'' [] =
     (Inr \<lparr>southwest = \<lparr>lat = 0, lng = 0\<rparr>, northeast = \<lparr>lat = 0, lng = 1/16\<rparr>\<rparr>, [GeocodeCall ''X''])
   \<and> generateGrid \<lparr>lat = 0, lng = 0\<rparr> \<lparr>lat = 0, lng = 1/16\<rparr> = Some samplePoints
   \<and> testGrid None samplePoints = [\<lparr>lat = 0, lng = 0\<rparr>] @ \<lparr>lat = 0, lng = stepDeg\<rparr> # [\<lparr>lat = 0, lng = 2 * stepDeg\<rparr>]
   \<and> places_api failingWorld 0 0 [''cafe''] = Json \<lparr>places = Some [placeA 4]\<rparr>
   \<and> places_api failingWorld 0 stepDeg [''cafe''] = FetchRejected
   \<and> run failingWorld ''X'' [''cafe''] None =
       Some (Inl NetworkFailure,
             [GeocodeCall ''X'', searchCallOf [''cafe''] \<lparr>lat = 0, lng = 0\<rparr>,
              searchCallOf [''cafe''] \<lparr>lat = 0, lng = stepDeg\<rparr>])"
proof -
  have t: "testGrid None samplePoints
      = [\<lparr>lat = 0, lng = 0\<rparr>] @ \<lparr>lat = 0, lng = stepDeg\<rparr> # [\<lparr>lat = 0, lng = 2 * stepDeg\<rparr>]"
    by (simp add: testGrid_def samplePoints_def)
  have ok: "\<forall>q\<in>set [\<lparr>lat = 0, lng = 0\<rparr>]. \<exists>json.
      places_api failingWorld (lat q) (lng q) [''cafe''] = Json json"
    by (simp add: sample_places)
  have bad: "places_api failingWorld (lat \<lparr>lat = 0, lng = stepDeg\<rparr>) (lng \<lparr>lat = 0, lng = stepDeg\<rparr>) [''cafe'']
       = FetchRejected \<or>
     places_api failingWorld (lat \<lparr>lat = 0, lng = stepDeg\<rparr>) (lng \<lparr>lat = 0, lng = stepDeg\<rparr>) [''cafe'']
       = BodyNotJson"
    by (simp add: sample_places)
  have "run failingWorld ''X'' [''cafe''] None =
       Some (Inl NetworkFailure,
             [GeocodeCall ''X'', searchCallOf [''cafe''] \<lparr>lat = 0, lng = 0\<rparr>,
              searchCallOf [''cafe''] \<lparr>lat = 0, lng = stepDeg\<rparr>])"
    using search_failure_aborts_run [OF sample_geocode(2) sample_grid_box t ok bad]
    by (simp add: sample_places)
  then show ?thesis
    using sample_geocode(2) sample_grid t by (simp add: sample_places)
qed

text \<open>
  Claim C4 as stated fails: in the world where the first grid point answers a record and
  the fetch for the second is rejected, the run ends rejected after the second search,
  the third point is never searched and nothing is exported.
\<close>

theorem search_failure_caught_counterexample:
  "run failingWorld ''X'' [''cafe''] None =
     Some (Inl NetworkFailure,
           [GeocodeCall ''X'', SearchCall 0 0 [''cafe''], SearchCall 0 stepDeg [''cafe'']])"
  by (simp add: run_def sample_geocode sample_grid testGrid_def samplePoints_def
      searchNearby_def sample_places)

text \<open>
  Claim C5. With a positive integer test limit \<open>N\<close> the orchestrator searches the first
  \<open>N\<close> points of the generated grid, in raster order (\<open>take\<close> gives the whole grid when
  it has fewer points), and no other point: the grid it iterates is \<open>take N fullGrid\<close>,
  the points of its search requests are always an initial part of it and all of it when
  the run resolves, and when each of these points is answered the effects of the run
  are the geocode request, the search requests of exactly these points in order, and the
  export.
\<close>

theorem test_limit_truncates:
  assumes "0 < N"
    and "geocodeCity w city [] = (Inr b, tr0)"
    and "generateGrid (southwest b) (northeast b) = Some fullGrid"
  shows "testGrid (Some (Fin (of_nat N))) fullGrid = take N fullGrid
     \<and> (\<exists>res tr k. run w city types (Some (Fin (of_nat N))) = Some (res, tr)
           \<and> k \<le> length (take N fullGrid)
           \<and> searchedPoints tr = take k (take N fullGrid)
           \<and> (res = Inr () \<longrightarrow> searchedPoints tr = take N fullGrid))
     \<and> ((\<forall>p\<in>set (take N fullGrid). \<exists>json. places_api w (lat p) (lng p) types = Json json)
          \<longrightarrow> run w city types (Some (Fin (of_nat N))) =
                Some (Inr (), GeocodeCall city # map (searchCallOf types) (take N fullGrid)
                  @ [FileWritten (fileName city)
                       (toCsv w (map snd (mergePlaces []
                          (concat (map (recordsAt w types) (take N fullGrid))))))]))"
proof -
  have t: "testGrid (Some (Fin (of_nat N))) fullGrid = take N fullGrid"
    using assms(1) by (rule testGrid_positive)
  show ?thesis
    using run_shape [OF assms(2,3), of types "Some (Fin (of_nat N))"]
      run_all_ok [OF assms(2,3), of "Some (Fin (of_nat N))" types]
    unfolding t by blast
qed

theorem test_limit_truncates_witness:
  "(0::nat) < 2
   \<and> geocodeCity sampleWorld ''X'' [] =
     (Inr \<lparr>southwest = \<lparr>lat = 0, lng = 0\<rparr>, northeast = \<lparr>lat = 0, lng = 1/16\<rparr>\<rparr>, [GeocodeCall ''X''])
   \<and> generateGrid \<lparr>lat = 0, lng = 0\<rparr> \<lparr>lat = 0, lng = 1/16\<rparr> = Some samplePoints
   \<and> length samplePoints = 3
   \<and> run sampleWorld ''X'' [''cafe''] (Some (Fin 2)) =
       Some (Inr (), [GeocodeCall ''X'', SearchCall 0 0 [''cafe''], SearchCall 0 stepDeg [''cafe''],
                      FileWritten ''places_X.csv'' (toCsv sampleWorld [placeA 5])])"
proof -
  have ok: "\<forall>p\<in>set (take 2 samplePoints). \<exists>json.
      places_api sampleWorld (lat p) (lng p) [''cafe''] = Json json"
    by (simp add: sample_places samplePoints_def)
  have "run sampleWorld ''X'' [''cafe''] (Some (Fin (of_nat 2))) =
      Some (Inr (), GeocodeCall ''X'' # map (searchCallOf [''cafe'']) (take 2 samplePoints)
        @ [FileWritten (fileName ''X'')
             (toCsv sampleWorld (map snd (mergePlaces []
                (concat (map (recordsAt sampleWorld [''cafe'']) (take 2 samplePoints))))))])"
    using test_limit_truncates [where N = 2 and types = "[''cafe'']",
        OF _ sample_geocode(1) sample_grid_box, of "''X''"] ok
    by simp
  then have "run sampleWorld ''X'' [''cafe''] (Some (Fin 2)) =
       Some (Inr (), [GeocodeCall ''X'', SearchCall 0 0 [''cafe''], SearchCall 0 stepDeg [''cafe''],
                      FileWritten ''places_X.csv'' (toCsv sampleWorld [placeA 5])])"
    by (simp add: samplePoints_def searchCallOf_def recordsAt_def sample_places placeA_def
        fileName_def isSpace_def)
  then show ?thesis
    using sample_geocode(1) sample_grid by (simp add: samplePoints_def)
qed

text \<open>
  Claim C10. A test limit that is not a number greater than zero (\<open>NaN\<close>, zero, a negative
  number, minus infinity) truncates nothing: the grid iterated is the full grid, the run
  is the run without a test limit, the points of its search requests are an initial part
  of the full grid and all of it when the run resolves, and when every grid point is
  answered the effects are the geocode request, the search requests of the full grid in
  order, and the export.
\<close>

theorem nonpositive_test_limit_ignored:
  assumes "n = NaN \<or> n = NegInf \<or> (\<exists>r. n = Fin r \<and> r \<le> 0)"
    and "geocodeCity w city [] = (Inr b, tr0)"
    and "generateGrid (southwest b) (northeast b) = Some fullGrid"
  shows "testGrid (Some n) fullGrid = fullGrid
     \<and> run w city types (Some n) = run w city types None
     \<and> (\<exists>res tr k. run w city types (Some n) = Some (res, tr)
           \<and> k \<le> length fullGrid
           \<and> searchedPoints tr = take k fullGrid
           \<and> (res = Inr () \<longrightarrow> searchedPoints tr = fullGrid))
     \<and> ((\<forall>p\<in>set fullGrid. \<exists>json. places_api w (lat p) (lng p) types = Json json)
          \<longrightarrow> run w city types (Some n) =
                Some (Inr (), GeocodeCall city # map (searchCallOf types) fullGrid
                  @ [FileWritten (fileName city)
                       (toCsv w (map snd (mergePlaces []
                          (concat (map (recordsAt w types) fullGrid)))))]))"
proof -
  have t: "\<And>g::LatLng list. testGrid (Some n) g = g"
    using assms(1) by (rule testGrid_not_positive)
  have same: "run w city types (Some n) = run w city types None"
    unfolding run_def t testGrid_None by (rule refl)
  show ?thesis
    using run_shape [OF assms(2,3), of types "Some n"]
      run_all_ok [OF assms(2,3), of "Some n" types] same
    unfolding t by blast
qed

theorem nonpositive_test_limit_ignored_witness:
  "(NaN = NaN \<or> NaN = NegInf \<or> (\<exists>r. NaN = Fin r \<and> r \<le> 0))
   \<and> geocodeCity sampleWorld ''X'' [] =
     (Inr \<lparr>southwest = \<lparr>lat = 0, lng = 0\<rparr>, northeast = \<lparr>lat = 0, lng = 1/16\<rparr>\<rparr>, [GeocodeCall ''X''])
   \<and> generateGrid \<lparr>lat = 0, lng = 0\<rparr> \<lparr>lat = 0, lng = 1/16\<rparr> = Some samplePoints
   \<and> run sampleWorld ''X'' [''cafe''] (Some NaN) =
       Some (Inr (), [GeocodeCall ''X'', SearchCall 0 0 [''cafe''], SearchCall 0 stepDeg [''cafe''],
                      SearchCall 0 (2 * stepDeg) [''cafe''],
                      FileWritten ''places_X.csv'' (toCsv sampleWorld [placeA 5])])"
proof -
  have ok: "\<forall>p\<in>set samplePoints. \<exists>json.
      places_api sampleWorld (lat p) (lng p) [''cafe''] = Json json"
    by (simp add: sample_places samplePoints_def)
  have "run sampleWorld ''X'' [''cafe''] (Some NaN) =
      Some (Inr (), GeocodeCall ''X'' # map (searchCallOf [''cafe'']) samplePoints
        @ [FileWritten (fileName ''X'')
             (toCsv sampleWorld (map snd (mergePlaces []
                (concat (map (recordsAt sampleWorld [''cafe'']) samplePoints)))))])"
    using nonpositive_test_limit_ignored [where n = NaN and types = "[''cafe'']",
        OF _ sample_geocode(1) sample_grid_box, of "''X''"] ok
    by blast
  then have "run sampleWorld ''X'' [''cafe''] (Some NaN) =
       Some (Inr (), [GeocodeCall ''X'', SearchCall 0 0 [''cafe''], SearchCall 0 stepDeg [''cafe''],
                      SearchCall 0 (2 * stepDeg) [''cafe''],
                      FileWritten ''places_X.csv'' (toCsv sampleWorld [placeA 5])])"
    by (simp add: samplePoints_def searchCallOf_def recordsAt_def sample_places placeA_def
        fileName_def isSpace_def)
  then show ?thesis
    using sample_geocode(1) sample_grid by simp
qed

section \<open>The export\<close>

lemma replaceQuotes_concat:
  "replaceQuotes s = concat (map (\<lambda>c. if c = CHR 0x22 then [CHR 0x22, CHR 0x22] else [c]) s)"
  by (induction s) simp_all

lemma escape_specField:
  "escape w None = specField None"
  "escape w (Some (Str s)) = specField (Some s)"
  "escape w (Some (Num n)) = specField (Some (numToString w n))"
  by (simp_all add: escape_def specField_def specQuoted_def replaceQuotes_concat)

lemma jsJoin_Cons: "jsJoin sep (x # xs) = x @ concat (map (\<lambda>y. sep @ y) xs)"
  by (induction xs arbitrary: x) simp_all

lemma row_specRow:
  "jsJoin '',''
     [escape w (Some (Str (place_id p))),
      escape w (map_option (\<lambda>d. Str (text' d)) (displayName p)),
      escape w (map_option Num (rating p)),
      escape w (map_option Num (userRatingCount p)),
      escape w (map_option Str (websiteUri p)),
      escape w (map_option Str (formattedAddress p)),
      escape w (map_option (\<lambda>l. Num (latitude l)) (location p)),
      escape w (map_option (\<lambda>l. Num (longitude l)) (location p))] = specRow w p"
proof -
  have opt: "\<And>f g (v :: 'a option). escape w (map_option (\<lambda>x. Str (f x)) v) = specField (map_option f v)"
    "\<And>g (v :: 'a option). escape w (map_option (\<lambda>x. Num (g x)) v) = specField (map_option (\<lambda>x. numToString w (g x)) v)"
    "\<And>v. escape w (map_option Str v) = specField v"
    "\<And>v. escape w (map_option Num v) = specField (map_option (numToString w) v)"
    by (case_tac [!] v) (simp_all add: escape_specField)
  show ?thesis
    by (simp add: specRow_def specColumns_def opt escape_specField option.map_ident)
qed

text \<open>
  Claim C6. For every list of records the export is the header line
  \<^verbatim>\<open>id,name,rating,userRatingCount,websiteUri,formattedAddress,latitude,longitude\<close>
  followed by one line per record, in the order of the list, made of these eight columns
  in this order separated by commas; each column is written between double quotes with
  the double quotes in it doubled, and an absent column as two double quotes.
\<close>

theorem toCsv_format: "toCsv w ps = specCsv w ps"
proof -
  have "jsJoin '','' header
      = ''id,name,rating,userRatingCount,websiteUri,formattedAddress,latitude,longitude''"
    by (simp add: header_def)
  then show ?thesis
    unfolding toCsv_def Let_def row_specRow
    by (simp add: specCsv_def jsJoin_Cons comp_def)
qed

text \<open>The two renderings that the specification gives as examples.\<close>

lemma escape_example:
  "escape w (Some (Str (''He said '' @ [CHR 0x22] @ ''hi'' @ [CHR 0x22])))
     = [CHR 0x22] @ ''He said '' @ [CHR 0x22, CHR 0x22] @ ''hi'' @ [CHR 0x22, CHR 0x22] @ [CHR 0x22]"
  "escape w None = [CHR 0x22, CHR 0x22]"
  by (simp_all add: escape_def)

section \<open>The command line\<close>

lemma splitOn_nonempty: "splitOn c s \<noteq> []"
  by (induction s) (auto split: list.splits)

lemma splitOn_append_sep:
  "c \<notin> set pre \<Longrightarrow> splitOn c (pre @ c # rest) = pre # splitOn c rest"
  by (induction pre) (auto split: list.splits)

lemma secondPart_option:
  assumes "startsWith arg ''--test='' \<or> startsWith arg ''--types=''"
  shows "\<exists>v. secondPart arg = Some v"
proof -
  from assms obtain pre rest where arg: "arg = pre @ CHR ''='' # rest" and pre: "CHR ''='' \<notin> set pre"
  proof
    assume "startsWith arg ''--test=''"
    then have "take (length ''--test='') arg = ''--test=''"
      unfolding startsWith_def .
    then have "arg = ''--test='' @ drop (length ''--test='') arg"
      by (metis append_take_drop_id)
    then have "arg = ''--test'' @ CHR ''='' # drop (length ''--test='') arg"
      by (simp del: length_Cons)
    then show ?thesis by (rule that) simp
  next
    assume "startsWith arg ''--types=''"
    then have "take (length ''--types='') arg = ''--types=''"
      unfolding startsWith_def .
    then have "arg = ''--types='' @ drop (length ''--types='') arg"
      by (metis append_take_drop_id)
    then have "arg = ''--types'' @ CHR ''='' # drop (length ''--types='') arg"
      by (simp del: length_Cons)
    then show ?thesis by (rule that) simp
  qed
  obtain y ys where "splitOn CHR ''='' rest = y # ys"
    using splitOn_nonempty [of "CHR ''=''" rest] by (cases "splitOn CHR ''='' rest") auto
  then show ?thesis
    by (simp add: secondPart_def arg splitOn_append_sep [OF pre])
qed

text \<open>The option loop never raises: an option always has a part after its first \<open>=\<close>.\<close>

lemma parseArgs_total: "\<exists>testLimit types cityParts. parseArgs w args st = Inr (testLimit, types, cityParts)"
proof (induction args arbitrary: st)
  case Nil
  then show ?case by (cases st) auto
next
  case (Cons arg args)
  obtain t ty cp where st: "st = (t, ty, cp)" by (cases st)
  show ?case
    using Cons.IH secondPart_option [of arg] by (auto simp: st split: option.splits)
qed

lemma parseArgs_options_only:
  "\<forall>arg\<in>set args. isOption arg \<Longrightarrow>
   (\<exists>e. parseArgs w args (t, ty, cp) = Inl e)
   \<or> (\<exists>t' ty'. parseArgs w args (t, ty, cp) = Inr (t', ty', cp))"
proof (induction args arbitrary: t ty)
  case Nil
  then show ?case by simp
next
  case (Cons arg args)
  then have "isOption arg" and rest: "\<forall>arg\<in>set args. isOption arg" by simp_all
  then show ?case
    using Cons.IH [OF rest] by (auto simp: isOption_def split: option.splits)
qed

text \<open>
  Claim C8. When the credential is absent from the environment (or empty), or no
  argument is a place name (every argument is an option), the program ends with exit
  code 1 before the pipeline starts: it has no effect, so no request is sent and no file
  is written.
\<close>

theorem missing_input_aborts:
  assumes "env = None \<or> env = Some [] \<or> (\<forall>arg\<in>set rawArgs. isOption arg)"
  shows "main w env rawArgs = Some (1, [])"
proof (cases "env = None \<or> env = Some []")
  case True
  then show ?thesis by (auto simp: main_def)
next
  case False
  with assms have "\<forall>arg\<in>set rawArgs. isOption arg" by blast
  from parseArgs_options_only [OF this, of w None "[''restaurant'', ''cafe'']" "[]"]
  show ?thesis
    using False by (auto simp: main_def)
qed

theorem missing_input_aborts_witness:
  "(None = None \<or> None = Some [] \<or> (\<forall>arg\<in>set [''Mumbai'']. isOption arg))
   \<and> main sampleWorld None [''Mumbai''] = Some (1, [])
   \<and> (Some ''key'' = None \<or> Some ''key'' = Some [] \<or> (\<forall>arg\<in>set [''--test=3'']. isOption arg))
   \<and> main sampleWorld (Some ''key'') [''--test=3''] = Some (1, [])"
proof -
  have opt: "\<forall>arg\<in>set [''--test=3'']. isOption arg"
    by (simp add: isOption_def startsWith_def)
  show ?thesis
    using missing_input_aborts [of None "[''Mumbai'']" sampleWorld]
      missing_input_aborts [of "Some ''key''" "[''--test=3'']" sampleWorld] opt
    by simp
qed

text \<open>With a credential and a place name the program runs the pipeline and ends with code 0.\<close>

lemma main_sample_run:
  "main sampleWorld (Some ''key'') [''X'', ''--test=3''] =
     Some (0, [GeocodeCall ''X'', SearchCall 0 0 [''restaurant'', ''cafe''],
               SearchCall 0 stepDeg [''restaurant'', ''cafe''],
               SearchCall 0 (2 * stepDeg) [''restaurant'', ''cafe''],
               FileWritten ''places_X.csv'' (toCsv sampleWorld [placeA 5])])"
  by (simp add: main_def startsWith_def secondPart_def run_def sample_geocode sample_grid
      testGrid_def samplePoints_def searchNearby_def sample_places fileName_def isSpace_def
      placeA_def) (simp add: sampleWorld_def)

end
